theory Spec2Isabelle
  imports Complex_Main "HOL-Library.Multiset"
begin

section \<open>Data model\<close>

text \<open>
  The program works on three pandas tables. A listen event is a row of
  \<^verbatim>\<open>listen_history.csv\<close>, a song is a row of \<^verbatim>\<open>songs.csv\<close>. Listen counts and
  scores are floating-point numbers in the program; they are modelled as real numbers, so
  rounding is not part of the model.
\<close>

datatype error = KeyError | ValueError

record event =
  ev_user :: int
  ev_song :: int
  ev_count :: real

record song =
  song_id :: int
  title :: string
  artist :: string

text \<open>
  A numeric DataFrame: the row labels, the column labels and the cell at a row label and a
  column label. A Series is the list of its (label, value) pairs in index order. A Series
  that may hold NaN carries \<open>None\<close> for NaN.
\<close>

record frame =
  index :: "int list"
  columns :: "int list"
  vals :: "int \<Rightarrow> int \<Rightarrow> real"

type_synonym series = "(int \<times> real) list"
type_synonym nseries = "(int \<times> real option) list"

section \<open>Interaction matrix (line 13)\<close>

text \<open>
  Modelled from the spec: \<^verbatim>\<open>DataFrame.pivot\<close> is pandas code, absent from the sources.
  Section 4.1 of the specification describes it as ``a pivot that fails on duplicate keys
  unless pre-aggregated'': a repeated (user, song) pair is rejected with ValueError.
  Otherwise the rows are the distinct user ids and the columns the distinct song ids, both
  ascending, a cell holds the count of its event, and \<^verbatim>\<open>fillna(0)\<close> puts 0 in every
  cell without an event.
\<close>

definition pivot :: "event list \<Rightarrow> error + frame" where
  "pivot history_df =
     (if \<not> distinct (map (\<lambda>e. (ev_user e, ev_song e)) history_df) then Inl ValueError
      else Inr \<lparr>index = sort (remdups (map ev_user history_df)),
                columns = sort (remdups (map ev_song history_df)),
                vals = (\<lambda>u s. case find (\<lambda>e. ev_user e = u \<and> ev_song e = s) history_df of
                                 None \<Rightarrow> 0
                               | Some e \<Rightarrow> ev_count e)\<rparr>)"

section \<open>Song similarity (lines 16 and 17)\<close>

definition dot :: "real list \<Rightarrow> real list \<Rightarrow> real" where
  "dot a b = (\<Sum>(x, y) \<leftarrow> zip a b. x * y)"

definition norm2 :: "real list \<Rightarrow> real" where
  "norm2 a = sqrt (dot a a)"

text \<open>
  Modelled from the spec: \<^verbatim>\<open>cosine_similarity\<close> is scikit-learn code, absent from the
  sources. Section 4.2: the dot product of the two vectors over the product of their
  norms, and 0 by convention when either vector is all zero.
\<close>

definition cosine :: "real list \<Rightarrow> real list \<Rightarrow> real" where
  "cosine a b =
     (if list_all (\<lambda>x. x = 0) a \<or> list_all (\<lambda>x. x = 0) b then 0
      else dot a b / (norm2 a * norm2 b))"

text \<open>The column of a song: its listen counts over all users, a row of \<^verbatim>\<open>pivot_table.T\<close>.\<close>

definition col :: "frame \<Rightarrow> int \<Rightarrow> real list" where
  "col df s = map (\<lambda>u. vals df u s) (index df)"

definition song_similarity_df :: "frame \<Rightarrow> frame" where
  "song_similarity_df pivot_table =
     \<lparr>index = columns pivot_table,
      columns = columns pivot_table,
      vals = (\<lambda>i j. cosine (col pivot_table i) (col pivot_table j))\<rparr>"

section \<open>pandas operations used by the recommender\<close>

text \<open>\<^verbatim>\<open>df.loc[label]\<close>: the row as a Series over the columns, KeyError for a missing label.\<close>

definition loc :: "frame \<Rightarrow> int \<Rightarrow> error + series" where
  "loc df l =
     (if l \<in> set (index df) then Inr (map (\<lambda>c. (c, vals df l c)) (columns df))
      else Inl KeyError)"

text \<open>\<^verbatim>\<open>df.loc[labels]\<close>: the rows in the order of the labels, KeyError for a missing one.\<close>

definition loc_rows :: "frame \<Rightarrow> int list \<Rightarrow> error + frame" where
  "loc_rows df ls =
     (if set ls \<subseteq> set (index df) then Inr (df\<lparr>index := ls\<rparr>) else Inl KeyError)"

text \<open>\<^verbatim>\<open>s.drop(labels)\<close>: KeyError when a label is not in the index.\<close>

definition drop_labels :: "int list \<Rightarrow> (int \<times> 'a) list \<Rightarrow> error + (int \<times> 'a) list" where
  "drop_labels ls s =
     (if set ls \<subseteq> fst ` set s then Inr (filter (\<lambda>p. fst p \<notin> set ls) s) else Inl KeyError)"

text \<open>\<^verbatim>\<open>df.sum()\<close>: the sum of every column over the rows.\<close>

definition col_sums :: "frame \<Rightarrow> series" where
  "col_sums df = map (\<lambda>c. (c, \<Sum>u \<leftarrow> index df. vals df u c)) (columns df)"

text \<open>
  \<^verbatim>\<open>s.sort_values(ascending=False)\<close>. Ties keep their order, the tie-break that section
  4.3 of the specification asks for; pandas leaves the order of ties to the sorting
  algorithm. NaN goes last.
\<close>

definition sort_values_desc :: "series \<Rightarrow> series" where
  "sort_values_desc s = sort_key (\<lambda>p. - snd p) s"

definition sort_values_desc_na :: "nseries \<Rightarrow> nseries" where
  "sort_values_desc_na s =
     sort_key (\<lambda>p. - the (snd p)) (filter (\<lambda>p. snd p \<noteq> None) s) @ filter (\<lambda>p. snd p = None) s"

text \<open>
  \<^verbatim>\<open>a + b\<close> on two Series aligns them on their labels: equal indexes are kept, otherwise
  the result is indexed by the sorted union, and a label missing on one side gives NaN.
\<close>

definition series_add :: "series \<Rightarrow> series \<Rightarrow> nseries" where
  "series_add a b =
     (let ls = (if map fst a = map fst b then map fst a
                else sort (remdups (map fst a @ map fst b)))
      in map (\<lambda>l. (l, case (map_of a l, map_of b l) of
                         (Some x, Some y) \<Rightarrow> Some (x + y)
                       | _ \<Rightarrow> None)) ls)"

text \<open>
  \<^verbatim>\<open>s.head(n)\<close>: the first \<open>n\<close> rows; for a negative \<open>n\<close>, all rows but the last
  \<open>- n\<close>.
\<close>

definition head :: "int \<Rightarrow> 'a list \<Rightarrow> 'a list" where
  "head n s = (if 0 \<le> n then take (nat n) s else take (length s - nat (- n)) s)"

section \<open>The recommender (lines 19 to 66)\<close>

text \<open>Line 38: the similarity of every user to the target user, clipped denominator.\<close>

definition user_similarity :: "frame \<Rightarrow> series \<Rightarrow> series" where
  "user_similarity pivot_table user_vector =
     map (\<lambda>u. (u, (\<Sum>(c, x) \<leftarrow> user_vector. vals pivot_table u c * x) /
                   max ((\<Sum>c \<leftarrow> columns pivot_table. vals pivot_table u c) *
                        (\<Sum>(c, x) \<leftarrow> user_vector. x)) (1 / 10 ^ 9)))
         (index pivot_table)"

text \<open>Lines 38 to 42: the user-based scores, sorted descending.\<close>

definition user_based_scores :: "int \<Rightarrow> frame \<Rightarrow> series \<Rightarrow> error + series" where
  "user_based_scores user_id pivot_table user_vector =
     (case drop_labels [user_id] (user_similarity pivot_table user_vector) of
        Inl e \<Rightarrow> Inl e
      | Inr user_similarity' \<Rightarrow>
          (let similar_users = map fst (sort_values_desc user_similarity') in
           case loc_rows pivot_table similar_users of
             Inl e \<Rightarrow> Inl e
           | Inr similar_users_data \<Rightarrow> Inr (sort_values_desc (col_sums similar_users_data))))"

text \<open>Line 45 (and line 52): the songs the user has listened to.\<close>

definition listened_songs :: "series \<Rightarrow> int list" where
  "listened_songs user_vector = map fst (filter (\<lambda>p. snd p > 0) user_vector)"

text \<open>Line 46: the item-based scores, sorted descending.\<close>

definition item_based_scores :: "frame \<Rightarrow> series \<Rightarrow> error + series" where
  "item_based_scores song_similarity user_vector =
     (case loc_rows song_similarity (listened_songs user_vector) of
        Inl e \<Rightarrow> Inl e
      | Inr rows \<Rightarrow> Inr (sort_values_desc (col_sums rows)))"

text \<open>Line 49: the combined scores.\<close>

definition combined_scores :: "int \<Rightarrow> frame \<Rightarrow> frame \<Rightarrow> error + nseries" where
  "combined_scores user_id pivot_table song_similarity =
     (case loc pivot_table user_id of
        Inl e \<Rightarrow> Inl e
      | Inr user_vector \<Rightarrow>
          (case user_based_scores user_id pivot_table user_vector of
             Inl e \<Rightarrow> Inl e
           | Inr ub \<Rightarrow>
               (case item_based_scores song_similarity user_vector of
                  Inl e \<Rightarrow> Inl e
                | Inr ib \<Rightarrow> Inr (series_add ub ib))))"

text \<open>Lines 52 to 59: drop the listened songs, sort descending, keep the first rows.\<close>

definition top_songs :: "int \<Rightarrow> frame \<Rightarrow> frame \<Rightarrow> int \<Rightarrow> error + nseries" where
  "top_songs user_id pivot_table song_similarity num_recommendations =
     (case loc pivot_table user_id of
        Inl e \<Rightarrow> Inl e
      | Inr user_vector \<Rightarrow>
          (case combined_scores user_id pivot_table song_similarity of
             Inl e \<Rightarrow> Inl e
           | Inr combined \<Rightarrow>
               (case drop_labels (listened_songs user_vector) combined of
                  Inl e \<Rightarrow> Inl e
                | Inr recommendations \<Rightarrow>
                    Inr (head num_recommendations (sort_values_desc_na recommendations)))))"

text \<open>Lines 34 to 62: the body of the \<^verbatim>\<open>try\<close>; line 62 selects the catalog rows.\<close>

definition hybrid_try :: "int \<Rightarrow> frame \<Rightarrow> frame \<Rightarrow> song list \<Rightarrow> int \<Rightarrow> error + song list" where
  "hybrid_try user_id pivot_table song_similarity songs_df num_recommendations =
     (case top_songs user_id pivot_table song_similarity num_recommendations of
        Inl e \<Rightarrow> Inl e
      | Inr ts \<Rightarrow> Inr (filter (\<lambda>s. song_id s \<in> set (map fst ts)) songs_df))"

text \<open>The decimal text of an integer, as the f-string of line 65 prints it.\<close>

fun str_nat :: "nat \<Rightarrow> string" where
  "str_nat n =
     (if n < 10 then [''0123456789'' ! n]
      else str_nat (n div 10) @ [''0123456789'' ! (n mod 10)])"

declare str_nat.simps [simp del]

definition str_int :: "int \<Rightarrow> string" where
  "str_int i = (if i < 0 then CHR ''-'' # str_nat (nat (- i)) else str_nat (nat i))"

text \<open>
  The whole function: what it prints and the rows of the DataFrame it returns. The
  \<^verbatim>\<open>except KeyError\<close> of line 64 prints a message and returns \<^verbatim>\<open>pd.DataFrame()\<close>,
  which has no rows. A ValueError is not caught.
\<close>

record outcome =
  printed :: "string list"
  rows :: "song list"

definition hybrid_recommend_songs ::
  "int \<Rightarrow> frame \<Rightarrow> frame \<Rightarrow> song list \<Rightarrow> int \<Rightarrow> error + outcome" where
  "hybrid_recommend_songs user_id pivot_table song_similarity songs_df num_recommendations =
     (case hybrid_try user_id pivot_table song_similarity songs_df num_recommendations of
        Inr recs \<Rightarrow> Inr \<lparr>printed = [], rows = recs\<rparr>
      | Inl KeyError \<Rightarrow>
          Inr \<lparr>printed = [''User '' @ str_int user_id @ '' not found in the data.''],
               rows = []\<rparr>
      | Inl e \<Rightarrow> Inl e)"

text \<open>
  The similarity matrix has a row for every song of the interaction matrix, as the one
  built on line 17 has.
\<close>

definition covers :: "frame \<Rightarrow> frame \<Rightarrow> bool" where
  "covers song_similarity pivot_table \<longleftrightarrow> set (columns pivot_table) \<subseteq> set (index song_similarity)"

section \<open>Example data\<close>

text \<open>
  The scenario of section 8 of the specification: users 1, 2, 3 and songs 10, 20, 30 (A, B, C).
\<close>

definition pt0 :: frame where
  "pt0 = \<lparr>index = [1, 2, 3], columns = [10, 20, 30],
     vals = (\<lambda>u s. if u = 1 then (if s = 10 then 5 else if s = 30 then 1 else 0)
                    else if u = 2 then (if s = 10 then 4 else if s = 30 then 2 else 0)
                    else if u = 3 then (if s = 20 then 5 else 0) else 0)\<rparr>"

definition sim0 :: frame where
  "sim0 = \<lparr>index = [10, 20, 30], columns = [10, 20, 30], vals = (\<lambda>i j. if i = j then 1 else 0)\<rparr>"

definition song_A :: song where
  "song_A = \<lparr>song_id = 10, title = ''A'', artist = ''x''\<rparr>"

definition song_B :: song where
  "song_B = \<lparr>song_id = 20, title = ''B'', artist = ''y''\<rparr>"

definition song_C :: song where
  "song_C = \<lparr>song_id = 30, title = ''C'', artist = ''z''\<rparr>"

text \<open>The listen events of the scenario, and a history that repeats a (user, song) pair.\<close>

definition history0 :: "event list" where
  "history0 =
     [\<lparr>ev_user = 1, ev_song = 10, ev_count = 5\<rparr>, \<lparr>ev_user = 1, ev_song = 30, ev_count = 1\<rparr>,
      \<lparr>ev_user = 2, ev_song = 10, ev_count = 4\<rparr>, \<lparr>ev_user = 2, ev_song = 30, ev_count = 2\<rparr>,
      \<lparr>ev_user = 3, ev_song = 20, ev_count = 5\<rparr>]"

definition history_dup :: "event list" where
  "history_dup =
     [\<lparr>ev_user = 1, ev_song = 10, ev_count = 2\<rparr>, \<lparr>ev_user = 1, ev_song = 10, ev_count = 3\<rparr>]"

text \<open>The catalog of the scenario.\<close>

definition catalog0 :: "song list" where
  "catalog0 = [song_A, song_B, song_C]"

text \<open>A matrix whose user 1 has listened to every song.\<close>

definition pt_all :: frame where
  "pt_all = \<lparr>index = [1, 2], columns = [10, 20],
     vals = (\<lambda>u s. if u = 1 then (if s = 10 then 2 else if s = 20 then 1 else 0)
                    else if u = 2 then (if s = 10 then 3 else 0) else 0)\<rparr>"

text \<open>The order of scores that \<^verbatim>\<open>sort_values(ascending=False)\<close> produces, NaN last.\<close>

fun score_ge :: "real option \<Rightarrow> real option \<Rightarrow> bool" where
  "score_ge _ None = True"
| "score_ge None (Some y) = False"
| "score_ge (Some x) (Some y) = (y \<le> x)"

text \<open>A matrix whose user 2 has two candidates: song 30 scores higher than song 10.\<close>

definition pt1 :: frame where
  "pt1 = \<lparr>index = [1, 2], columns = [10, 20, 30],
     vals = (\<lambda>u s. if u = 1 then (if s = 10 then 1 else if s = 30 then 5 else 0)
                    else if u = 2 then (if s = 20 then 5 else 0) else 0)\<rparr>"

text \<open>A matrix whose song 20 has an all-zero column.\<close>

definition pt_zero :: frame where
  "pt_zero = \<lparr>index = [1, 2], columns = [10, 20],
     vals = (\<lambda>u s. if u = 1 \<and> s = 10 then 3 else if u = 2 \<and> s = 10 then 4 else 0)\<rparr>"

section \<open>Basic facts\<close>

lemma set_sort_values_desc: "set (sort_values_desc s) = set s"
  by (simp add: sort_values_desc_def)

lemma set_sort_values_desc_na: "set (sort_values_desc_na s) = set s"
  by (auto simp: sort_values_desc_na_def)

lemma length_sort_values_desc_na: "length (sort_values_desc_na s) = length s"
proof -
  have "length (filter (\<lambda>p. snd p \<noteq> None) s) + length (filter (\<lambda>p. \<not> snd p \<noteq> None) s) = length s"
    by (rule sum_length_filter_compl)
  then show ?thesis by (simp add: sort_values_desc_na_def)
qed

lemma loc_known: "u \<in> set (index df) \<Longrightarrow> loc df u = Inr (map (\<lambda>c. (c, vals df u c)) (columns df))"
  by (simp add: loc_def)

lemma loc_unknown: "u \<notin> set (index df) \<Longrightarrow> loc df u = Inl KeyError"
  by (simp add: loc_def)

lemma labels_user_similarity: "map fst (user_similarity df uv) = index df"
  by (simp add: user_similarity_def comp_def)

lemma user_based_scores_known:
  assumes "u \<in> set (index df)"
  shows "user_based_scores u df uv =
           Inr (sort_values_desc (col_sums (df\<lparr>index :=
                  map fst (sort_values_desc (filter (\<lambda>p. fst p \<notin> set [u]) (user_similarity df uv)))\<rparr>)))"
proof -
  have a: "fst ` set (user_similarity df uv) = set (index df)"
    using labels_user_similarity [of df uv] by (metis set_map)
  have b: "drop_labels [u] (user_similarity df uv)
             = Inr (filter (\<lambda>p. fst p \<notin> set [u]) (user_similarity df uv))"
    using assms a by (simp add: drop_labels_def)
  have c: "set (map fst (sort_values_desc (filter (\<lambda>p. fst p \<notin> set [u]) (user_similarity df uv))))
             \<subseteq> set (index df)"
    using a by (auto simp: set_sort_values_desc)
  show ?thesis
    unfolding user_based_scores_def b using c by (simp add: loc_rows_def Let_def)
qed

lemma labels_col_sums: "map fst (col_sums df) = columns df"
  by (simp add: col_sums_def comp_def)

lemma label_set_col_sums: "fst ` set (col_sums df) = set (columns df)"
  using labels_col_sums [of df] by (metis set_map)

lemma labels_user_based:
  assumes "user_based_scores u df uv = Inr ub"
  shows "fst ` set ub = set (columns df)"
proof -
  obtain ls where "ub = sort_values_desc (col_sums (df\<lparr>index := ls\<rparr>))"
    using assms
    by (auto simp: user_based_scores_def Let_def loc_rows_def split: sum.splits if_splits)
  then show ?thesis
    using label_set_col_sums [of "df\<lparr>index := ls\<rparr>"] by (simp add: set_sort_values_desc)
qed

lemma labels_series_add:
  "map fst (series_add a b) =
     (if map fst a = map fst b then map fst a else sort (remdups (map fst a @ map fst b)))"
  by (simp add: series_add_def Let_def comp_def)

lemma label_set_series_add: "fst ` set a \<subseteq> fst ` set (series_add a b)"
proof -
  have "set (map fst a) \<subseteq> set (map fst (series_add a b))"
  proof (cases "map fst a = map fst b")
    case True
    then have "map fst (series_add a b) = map fst a" by (simp add: labels_series_add)
    then show ?thesis by simp
  next
    case False
    then have "map fst (series_add a b) = sort (remdups (map fst a @ map fst b))"
      by (simp add: labels_series_add)
    then show ?thesis by simp
  qed
  then show ?thesis by simp
qed

lemma set_head_subset: "set (head n s) \<subseteq> set s"
  by (auto simp: head_def dest: in_set_takeD)

text \<open>When the body of the try succeeds.\<close>

lemma top_songs_Inr:
  assumes "top_songs u pt sim k = Inr ts"
  shows "\<exists>uv rs. loc pt u = Inr uv \<and> ts = head k (sort_values_desc_na rs) \<and>
           fst ` set rs \<inter> set (listened_songs uv) = {}"
  using assms
  by (auto simp: top_songs_def drop_labels_def split: sum.splits if_splits)

lemma top_songs_not_listened:
  assumes "top_songs u pt sim k = Inr ts" "loc pt u = Inr uv"
  shows "fst ` set ts \<inter> set (listened_songs uv) = {}"
proof -
  obtain uv' rs where h: "loc pt u = Inr uv'" "ts = head k (sort_values_desc_na rs)"
     "fst ` set rs \<inter> set (listened_songs uv') = {}"
    using top_songs_Inr [OF assms(1)] by blast
  have "set ts \<subseteq> set rs" using h(2) set_head_subset [of k "sort_values_desc_na rs"]
    by (simp add: set_sort_values_desc_na)
  then show ?thesis using h assms(2) by auto
qed

lemma top_songs_length: "top_songs u pt sim k = Inr ts \<Longrightarrow> 0 \<le> k \<Longrightarrow> length ts \<le> nat k"
  using top_songs_Inr [of u pt sim k ts] by (auto simp: head_def)

lemma listened_sub_columns:
  "loc pt u = Inr uv \<Longrightarrow> set (listened_songs uv) \<subseteq> set (columns pt)"
  by (auto simp: loc_def listened_songs_def split: if_splits)

lemma top_songs_known:
  assumes "u \<in> set (index pt)" "loc pt u = Inr uv" "set (listened_songs uv) \<subseteq> set (index sim)"
  shows "\<exists>ts. top_songs u pt sim k = Inr ts"
proof -
  obtain ub where ub: "user_based_scores u pt uv = Inr ub"
    using user_based_scores_known [OF assms(1)] by blast
  obtain ib where ib: "item_based_scores sim uv = Inr ib"
    using assms(3) by (simp add: item_based_scores_def loc_rows_def)
  have cs: "combined_scores u pt sim = Inr (series_add ub ib)"
    using assms(2) ub ib by (simp add: combined_scores_def)
  have "set (listened_songs uv) \<subseteq> fst ` set (series_add ub ib)"
    using listened_sub_columns [OF assms(2)] labels_user_based [OF ub] label_set_series_add [of ub ib]
    by blast
  then show ?thesis
    using assms(2) cs by (simp add: top_songs_def drop_labels_def)
qed

lemma hybrid_try_error: "hybrid_try u pt sim cat k = Inl e \<Longrightarrow> e = KeyError"
  by (auto simp: hybrid_try_def top_songs_def combined_scores_def user_based_scores_def
      item_based_scores_def loc_def loc_rows_def drop_labels_def Let_def
      split: sum.splits if_splits)

lemma hybrid_total: "\<exists>out. hybrid_recommend_songs u pt sim cat k = Inr out"
proof (cases "hybrid_try u pt sim cat k")
  case (Inl e)
  then show ?thesis using hybrid_try_error [OF Inl] by (simp add: hybrid_recommend_songs_def)
next
  case (Inr r)
  then show ?thesis by (simp add: hybrid_recommend_songs_def)
qed

lemma hybrid_rows:
  assumes "hybrid_recommend_songs u pt sim cat k = Inr out"
  shows "rows out = [] \<or>
         (\<exists>ts. top_songs u pt sim k = Inr ts \<and> printed out = [] \<and>
               rows out = filter (\<lambda>s. song_id s \<in> set (map fst ts)) cat)"
  using assms
  by (auto simp: hybrid_recommend_songs_def hybrid_try_def split: sum.splits error.splits)

lemma str_nat_digit: "n < 10 \<Longrightarrow> str_nat n = [''0123456789'' ! n]"
  by (simp add: str_nat.simps)

lemma hybrid_known:
  assumes "u \<in> set (index pt)" "covers sim pt"
  shows "\<exists>ts. top_songs u pt sim k = Inr ts \<and>
           hybrid_recommend_songs u pt sim cat k =
             Inr \<lparr>printed = [], rows = filter (\<lambda>s. song_id s \<in> set (map fst ts)) cat\<rparr>"
proof -
  obtain uv where uv: "loc pt u = Inr uv" using loc_known [OF assms(1)] by blast
  have "set (listened_songs uv) \<subseteq> set (index sim)"
    using listened_sub_columns [OF uv] assms(2) by (auto simp: covers_def)
  then obtain ts where "top_songs u pt sim k = Inr ts"
    using top_songs_known [OF assms(1) uv] by blast
  then show ?thesis by (simp add: hybrid_recommend_songs_def hybrid_try_def)
qed

text \<open>
  C1 (amended). For a user id that is not a row of the interaction matrix the function does
  not fail: the KeyError is caught, the message ``User <id> not found in the data.'' is
  printed and a DataFrame without rows is returned. A known user, with a similarity matrix
  that covers the songs, prints nothing.
\<close>

theorem unknown_user_empty_frame:
  "(user_id \<notin> set (index pt) \<longrightarrow>
      hybrid_recommend_songs user_id pt sim cat k =
        Inr \<lparr>printed = [''User '' @ str_int user_id @ '' not found in the data.''], rows = []\<rparr>) \<and>
   (user_id \<in> set (index pt) \<and> covers sim pt \<longrightarrow>
      (\<exists>out. hybrid_recommend_songs user_id pt sim cat k = Inr out \<and> printed out = []))"
proof (intro conjI impI)
  assume "user_id \<notin> set (index pt)"
  then have "top_songs user_id pt sim k = Inl KeyError"
    by (simp add: top_songs_def loc_unknown)
  then show "hybrid_recommend_songs user_id pt sim cat k =
        Inr \<lparr>printed = [''User '' @ str_int user_id @ '' not found in the data.''], rows = []\<rparr>"
    by (simp add: hybrid_recommend_songs_def hybrid_try_def)
next
  assume "user_id \<in> set (index pt) \<and> covers sim pt"
  then show "\<exists>out. hybrid_recommend_songs user_id pt sim cat k = Inr out \<and> printed out = []"
    using hybrid_known [of user_id pt sim k cat] by auto
qed

theorem unknown_user_empty_frame_witness:
  "7 \<notin> set (index pt0) \<and>
   hybrid_recommend_songs 7 pt0 sim0 [song_A, song_B, song_C] 5 =
     Inr \<lparr>printed = [''User 7 not found in the data.''], rows = []\<rparr> \<and>
   1 \<in> set (index pt0) \<and> covers sim0 pt0 \<and>
   (\<exists>out. hybrid_recommend_songs 1 pt0 sim0 [song_A, song_B, song_C] 5 = Inr out \<and> printed out = [])"
  using unknown_user_empty_frame [of 7 pt0 sim0 "[song_A, song_B, song_C]" 5]
    unknown_user_empty_frame [of 1 pt0 sim0 "[song_A, song_B, song_C]" 5]
  by (simp add: pt0_def sim0_def covers_def str_int_def str_nat_digit)

text \<open>
  C1 as stated fails: user 7 is not a row, and the call returns an empty result instead of
  an error.
\<close>

theorem unknown_user_counterexample:
  "hybrid_recommend_songs 7 pt0 sim0 [song_A, song_B, song_C] 5 =
     Inr \<lparr>printed = [''User 7 not found in the data.''], rows = []\<rparr>"
  by (simp add: hybrid_recommend_songs_def hybrid_try_def top_songs_def loc_def pt0_def
      str_int_def str_nat_digit)

lemma find_distinct_key:
  "distinct (map f xs) \<Longrightarrow> x \<in> set xs \<Longrightarrow> find (\<lambda>y. f y = f x) xs = Some x"
  by (induction xs) (auto simp: image_iff)

lemma find_absent: "k \<notin> f ` set xs \<Longrightarrow> find (\<lambda>y. f y = k) xs = None"
  by (induction xs) auto

text \<open>
  C2 (amended). An event sequence that repeats a (user, song) pair is rejected with
  ValueError: the counts are neither summed nor overwritten. Without a repeated pair the
  rows are the users, the columns the songs, the cell of every event holds its count and
  every other cell is 0.
\<close>

theorem pivot_rejects_duplicates:
  "(\<not> distinct (map (\<lambda>e. (ev_user e, ev_song e)) evs) \<longrightarrow> pivot evs = Inl ValueError) \<and>
   (distinct (map (\<lambda>e. (ev_user e, ev_song e)) evs) \<longrightarrow>
      (\<exists>pt. pivot evs = Inr pt \<and>
            set (index pt) = ev_user ` set evs \<and> set (columns pt) = ev_song ` set evs \<and>
            (\<forall>e \<in> set evs. vals pt (ev_user e) (ev_song e) = ev_count e) \<and>
            (\<forall>u s. (u, s) \<notin> (\<lambda>e. (ev_user e, ev_song e)) ` set evs \<longrightarrow> vals pt u s = 0)))"
proof (intro conjI impI)
  assume "\<not> distinct (map (\<lambda>e. (ev_user e, ev_song e)) evs)"
  then show "pivot evs = Inl ValueError" by (simp add: pivot_def)
next
  let ?key = "\<lambda>e. (ev_user e, ev_song e)"
  assume d: "distinct (map ?key evs)"
  define pt where "pt = \<lparr>index = sort (remdups (map ev_user evs)),
                columns = sort (remdups (map ev_song evs)),
                vals = (\<lambda>u s. case find (\<lambda>e. ev_user e = u \<and> ev_song e = s) evs of
                                 None \<Rightarrow> 0
                               | Some e \<Rightarrow> ev_count e)\<rparr>"
  have p: "pivot evs = Inr pt" using d by (simp add: pivot_def pt_def)
  have cell: "vals pt (ev_user e) (ev_song e) = ev_count e" if "e \<in> set evs" for e
  proof -
    have "find (\<lambda>y. ?key y = ?key e) evs = Some e" using d that by (rule find_distinct_key)
    then show ?thesis by (simp add: pt_def)
  qed
  have zero: "vals pt u s = 0" if "(u, s) \<notin> ?key ` set evs" for u s
  proof -
    have "find (\<lambda>y. ?key y = (u, s)) evs = None" using that by (rule find_absent)
    then show ?thesis by (simp add: pt_def)
  qed
  have "set (index pt) = ev_user ` set evs" "set (columns pt) = ev_song ` set evs"
    by (simp_all add: pt_def)
  then show "\<exists>pt. pivot evs = Inr pt \<and>
            set (index pt) = ev_user ` set evs \<and> set (columns pt) = ev_song ` set evs \<and>
            (\<forall>e \<in> set evs. vals pt (ev_user e) (ev_song e) = ev_count e) \<and>
            (\<forall>u s. (u, s) \<notin> ?key ` set evs \<longrightarrow> vals pt u s = 0)"
    using p cell zero by blast
qed

theorem pivot_rejects_duplicates_witness:
  "\<not> distinct (map (\<lambda>e. (ev_user e, ev_song e)) history_dup) \<and> pivot history_dup = Inl ValueError \<and>
   distinct (map (\<lambda>e. (ev_user e, ev_song e)) history0) \<and>
   (\<exists>pt. pivot history0 = Inr pt \<and>
         set (index pt) = ev_user ` set history0 \<and> set (columns pt) = ev_song ` set history0 \<and>
         (\<forall>e \<in> set history0. vals pt (ev_user e) (ev_song e) = ev_count e) \<and>
         (\<forall>u s. (u, s) \<notin> (\<lambda>e. (ev_user e, ev_song e)) ` set history0 \<longrightarrow> vals pt u s = 0))"
proof -
  have a: "\<not> distinct (map (\<lambda>e. (ev_user e, ev_song e)) history_dup)"
    by (simp add: history_dup_def)
  have b: "distinct (map (\<lambda>e. (ev_user e, ev_song e)) history0)"
    by (simp add: history0_def)
  show ?thesis
    using a b pivot_rejects_duplicates [of history_dup] pivot_rejects_duplicates [of history0]
    by blast
qed

text \<open>
  C2 as stated fails: the pair (1, 10) with counts 2 and 3 gives an error, not a cell of
  value 5.
\<close>

theorem pivot_duplicate_counterexample:
  "pivot [\<lparr>ev_user = 1, ev_song = 10, ev_count = 2\<rparr>, \<lparr>ev_user = 1, ev_song = 10, ev_count = 3\<rparr>]
     = Inl ValueError"
  by (simp add: pivot_def)

lemma pivot_history0_cells:
  "\<exists>pt. pivot history0 = Inr pt \<and> index pt = [1, 2, 3] \<and> columns pt = [10, 20, 30] \<and>
     vals pt 1 10 = 5 \<and> vals pt 1 20 = 0 \<and> vals pt 3 20 = 5"
  by (simp add: pivot_def history0_def)

lemma top_songs_pt0_user3: "top_songs 3 pt0 sim0 2 = Inr [(10, Some 9), (30, Some 3)]"
  by (simp add: top_songs_def combined_scores_def user_based_scores_def item_based_scores_def
      loc_def loc_rows_def drop_labels_def col_sums_def user_similarity_def listened_songs_def
      series_add_def sort_values_desc_def sort_values_desc_na_def pt0_def sim0_def head_def Let_def)

lemma hybrid_pt0_user3:
  "hybrid_recommend_songs 3 pt0 sim0 catalog0 2 = Inr \<lparr>printed = [], rows = [song_A, song_C]\<rparr>"
  by (simp add: hybrid_recommend_songs_def hybrid_try_def top_songs_pt0_user3 catalog0_def
      song_A_def song_B_def song_C_def)

text \<open>
  C4. For a known user the call returns, and no returned record is a song of the matrix
  that the user has listened to (a cell greater than 0 in the user's row).
\<close>

theorem listened_songs_excluded:
  assumes "user_id \<in> set (index pt)"
  shows "\<exists>out. hybrid_recommend_songs user_id pt sim cat k = Inr out \<and>
           (\<forall>s \<in> set (rows out).
              \<not> (song_id s \<in> set (columns pt) \<and> vals pt user_id (song_id s) > 0))"
proof -
  obtain out where out: "hybrid_recommend_songs user_id pt sim cat k = Inr out"
    using hybrid_total by blast
  let ?uv = "map (\<lambda>c. (c, vals pt user_id c)) (columns pt)"
  have uv: "loc pt user_id = Inr ?uv" using assms by (rule loc_known)
  have "\<not> (song_id s \<in> set (columns pt) \<and> vals pt user_id (song_id s) > 0)"
    if s: "s \<in> set (rows out)" for s
  proof
    assume l: "song_id s \<in> set (columns pt) \<and> vals pt user_id (song_id s) > 0"
    from s have "rows out \<noteq> []" by auto
    then obtain ts where ts: "top_songs user_id pt sim k = Inr ts"
        "rows out = filter (\<lambda>s. song_id s \<in> set (map fst ts)) cat"
      using hybrid_rows [OF out] by blast
    have "song_id s \<in> fst ` set ts" using s ts(2) by auto
    moreover have "song_id s \<in> set (listened_songs ?uv)"
      using l by (auto simp: listened_songs_def image_iff)
    ultimately show False using top_songs_not_listened [OF ts(1) uv] by blast
  qed
  then show ?thesis using out by blast
qed

theorem listened_songs_excluded_witness:
  "3 \<in> set (index pt0) \<and>
   (\<exists>out. hybrid_recommend_songs 3 pt0 sim0 catalog0 2 = Inr out \<and> rows out = [song_A, song_C] \<and>
      (\<forall>s \<in> set (rows out). \<not> (song_id s \<in> set (columns pt0) \<and> vals pt0 3 (song_id s) > 0)))"
proof -
  have h: "3 \<in> set (index pt0)" by (simp add: pt0_def)
  show ?thesis
    using h listened_songs_excluded [OF h, of sim0 catalog0 2] by (simp add: hybrid_pt0_user3)
qed

lemma length_filter_isin:
  assumes "distinct (map f xs)"
  shows "length (filter (\<lambda>x. f x \<in> set ys) xs) \<le> length ys"
proof -
  have d: "distinct (map f (filter (\<lambda>x. f x \<in> set ys) xs))"
    using assms by (rule distinct_map_filter)
  have "length (filter (\<lambda>x. f x \<in> set ys) xs) = length (map f (filter (\<lambda>x. f x \<in> set ys) xs))"
    by simp
  also have "\<dots> = card (set (map f (filter (\<lambda>x. f x \<in> set ys) xs)))"
    using d by (simp only: distinct_card)
  also have "\<dots> \<le> card (set ys)" by (rule card_mono) auto
  also have "\<dots> \<le> length ys" by (rule card_length)
  finally show ?thesis .
qed

text \<open>
  C5. For a known user, a requested count \<open>k \<ge> 0\<close> and a catalog whose song ids are
  unique, the call returns at most \<open>k\<close> records. When moreover the user has listened to
  every cataloged song (and the similarity matrix covers the songs), the result is empty
  and no error message is printed.
\<close>

theorem result_length_bounded:
  assumes "user_id \<in> set (index pt)" "distinct (map song_id cat)" "0 \<le> k"
  shows "\<exists>out. hybrid_recommend_songs user_id pt sim cat k = Inr out \<and>
           int (length (rows out)) \<le> k \<and>
           (covers sim pt \<and>
            (\<forall>s \<in> set cat. song_id s \<in> set (columns pt) \<and> vals pt user_id (song_id s) > 0)
              \<longrightarrow> out = \<lparr>printed = [], rows = []\<rparr>)"
proof -
  obtain out where out: "hybrid_recommend_songs user_id pt sim cat k = Inr out"
    using hybrid_total by blast
  let ?uv = "map (\<lambda>c. (c, vals pt user_id c)) (columns pt)"
  have uv: "loc pt user_id = Inr ?uv" using assms(1) by (rule loc_known)
  have len: "int (length (rows out)) \<le> k"
  proof (cases "rows out = []")
    case True
    then show ?thesis using assms(3) by simp
  next
    case False
    then obtain ts where ts: "top_songs user_id pt sim k = Inr ts"
      "rows out = filter (\<lambda>s. song_id s \<in> set (map fst ts)) cat"
      using hybrid_rows [OF out] by blast
    have "length (filter (\<lambda>s. song_id s \<in> set (map fst ts)) cat) \<le> length (map fst ts)"
      using assms(2) by (rule length_filter_isin)
    then show ?thesis
      using top_songs_length [OF ts(1) assms(3)] assms(3) ts(2) by simp
  qed
  have "out = \<lparr>printed = [], rows = []\<rparr>"
    if c: "covers sim pt"
      and all: "\<forall>s \<in> set cat. song_id s \<in> set (columns pt) \<and> vals pt user_id (song_id s) > 0"
  proof -
    obtain ts where ts: "top_songs user_id pt sim k = Inr ts"
      and h: "hybrid_recommend_songs user_id pt sim cat k =
               Inr \<lparr>printed = [], rows = filter (\<lambda>s. song_id s \<in> set (map fst ts)) cat\<rparr>"
      using hybrid_known [OF assms(1) c] by blast
    have "song_id s \<notin> set (map fst ts)" if "s \<in> set cat" for s
    proof -
      have "song_id s \<in> set (listened_songs ?uv)"
        using all that by (auto simp: listened_songs_def image_iff)
      then show ?thesis using top_songs_not_listened [OF ts uv] by auto
    qed
    then have "filter (\<lambda>s. song_id s \<in> set (map fst ts)) cat = []"
      by (simp add: filter_empty_conv)
    then show ?thesis using h out by simp
  qed
  then show ?thesis using out len by blast
qed

theorem result_length_bounded_witness:
  "3 \<in> set (index pt0) \<and> distinct (map song_id catalog0) \<and> (0::int) \<le> 1 \<and>
   (\<exists>out. hybrid_recommend_songs 3 pt0 sim0 catalog0 1 = Inr out \<and>
      int (length (rows out)) \<le> 1) \<and>
   1 \<in> set (index pt_all) \<and> distinct (map song_id [song_A, song_B]) \<and> (0::int) \<le> 5 \<and>
   covers sim0 pt_all \<and>
   song_id song_A \<in> set (columns pt_all) \<and> vals pt_all 1 (song_id song_A) > 0 \<and>
   song_id song_B \<in> set (columns pt_all) \<and> vals pt_all 1 (song_id song_B) > 0 \<and>
   hybrid_recommend_songs 1 pt_all sim0 [song_A, song_B] 5 = Inr \<lparr>printed = [], rows = []\<rparr>"
proof -
  have a: "3 \<in> set (index pt0)" "distinct (map song_id catalog0)" "(0::int) \<le> 1"
    by (simp_all add: pt0_def catalog0_def song_A_def song_B_def song_C_def)
  have b: "1 \<in> set (index pt_all)" "distinct (map song_id [song_A, song_B])" "(0::int) \<le> 5"
    by (simp_all add: pt_all_def song_A_def song_B_def)
  have c: "covers sim0 pt_all"
    "\<forall>s \<in> set [song_A, song_B]. song_id s \<in> set (columns pt_all) \<and> vals pt_all 1 (song_id s) > 0"
    by (simp_all add: pt_all_def song_A_def song_B_def covers_def sim0_def)
  have d: "\<exists>out. hybrid_recommend_songs 3 pt0 sim0 catalog0 1 = Inr out \<and>
      int (length (rows out)) \<le> 1"
    using result_length_bounded [OF a, of sim0] by blast
  have e: "hybrid_recommend_songs 1 pt_all sim0 [song_A, song_B] 5 = Inr \<lparr>printed = [], rows = []\<rparr>"
    using c result_length_bounded [OF b, of sim0] by blast
  show ?thesis using a b c d e by simp
qed

lemma cosine_pt1:
  "cosine (col pt1 20) (col pt1 10) = 0" "cosine (col pt1 20) (col pt1 20) = 1"
  "cosine (col pt1 20) (col pt1 30) = 0"
  by (simp_all add: cosine_def col_def pt1_def dot_def norm2_def)

lemma pt1_simps:
  "index pt1 = [1, 2]" "columns pt1 = [10, 20, 30]"
  "vals pt1 1 10 = 1" "vals pt1 1 20 = 0" "vals pt1 1 30 = 5"
  "vals pt1 2 10 = 0" "vals pt1 2 20 = 5" "vals pt1 2 30 = 0"
  by (simp_all add: pt1_def)

lemma loc_pt1_user2: "loc pt1 2 = Inr [(10, 0), (20, 5), (30, 0)]"
  by (simp add: loc_def pt1_simps)

lemma user_based_pt1_user2:
  "user_based_scores 2 pt1 [(10, 0), (20, 5), (30, 0)] = Inr [(30, 5), (10, 1), (20, 0)]"
  by (simp add: user_based_scores_def user_similarity_def drop_labels_def loc_rows_def
      col_sums_def sort_values_desc_def pt1_simps Let_def)

lemma item_based_pt1_user2:
  "item_based_scores (song_similarity_df pt1) [(10, 0), (20, 5), (30, 0)]
     = Inr [(20, 1), (10, 0), (30, 0)]"
  by (simp add: item_based_scores_def listened_songs_def loc_rows_def col_sums_def
      song_similarity_df_def sort_values_desc_def cosine_pt1 pt1_simps)

lemma combined_pt1_user2:
  "combined_scores 2 pt1 (song_similarity_df pt1) = Inr [(10, Some 1), (20, Some 1), (30, Some 5)]"
  by (simp add: combined_scores_def loc_pt1_user2 user_based_pt1_user2 item_based_pt1_user2
      series_add_def)

lemma top_songs_pt1_user2:
  "top_songs 2 pt1 (song_similarity_df pt1) 2 = Inr [(30, Some 5), (10, Some 1)]"
  by (simp add: top_songs_def loc_pt1_user2 combined_pt1_user2 listened_songs_def drop_labels_def
      sort_values_desc_na_def head_def)

lemma hybrid_pt1_user2:
  "hybrid_recommend_songs 2 pt1 (song_similarity_df pt1) catalog0 2
     = Inr \<lparr>printed = [], rows = [song_A, song_C]\<rparr>"
  by (simp add: hybrid_recommend_songs_def hybrid_try_def top_songs_pt1_user2 catalog0_def
      song_A_def song_B_def song_C_def)

lemma mset_sort_values_desc_na: "mset (sort_values_desc_na s) = mset s"
proof -
  have "mset s = filter_mset (\<lambda>p. snd p \<noteq> None) (mset s) + filter_mset (\<lambda>p. \<not> snd p \<noteq> None) (mset s)"
    by (rule multiset_partition)
  then show ?thesis by (simp add: sort_values_desc_na_def)
qed

lemma sorted_sort_values_desc_na:
  "sorted_wrt (\<lambda>p q. score_ge (snd p) (snd q)) (sort_values_desc_na s)"
proof -
  let ?A = "sort_key (\<lambda>p. - the (snd p)) (filter (\<lambda>p. snd p \<noteq> None) s)"
  let ?B = "filter (\<lambda>p. snd p = None) s"
  have "sorted (map (\<lambda>p. - the (snd p)) ?A)" by (rule sorted_sort_key)
  then have s1: "sorted_wrt (\<lambda>p q. - the (snd p) \<le> - the (snd q)) ?A"
    by (simp only: sorted_wrt_map)
  have a: "sorted_wrt (\<lambda>p q. score_ge (snd p) (snd q)) ?A"
  proof (rule sorted_wrt_mono_rel [OF _ s1])
    fix p q :: "int \<times> real option"
    assume "p \<in> set ?A" "q \<in> set ?A" and le: "- the (snd p) \<le> - the (snd q)"
    then have "snd p \<noteq> None" "snd q \<noteq> None" by simp_all
    then obtain x y where xy: "snd p = Some x" "snd q = Some y" by blast
    show "score_ge (snd p) (snd q)" using le by (simp add: xy)
  qed
  have b: "sorted_wrt (\<lambda>p q. score_ge (snd p) (snd q)) ?B"
    by (rule sorted_wrt_mono_rel [where P = "\<lambda>p q. True"]) auto
  have c: "\<forall>p \<in> set ?A. \<forall>q \<in> set ?B. score_ge (snd p) (snd q)" by simp
  show ?thesis unfolding sort_values_desc_na_def using a b c by (simp only: sorted_wrt_append)
qed

lemma combined_scores_known:
  assumes "u \<in> set (index pt)" "covers sim pt"
  shows "\<exists>cs. combined_scores u pt sim = Inr cs"
proof -
  obtain ts where "top_songs u pt sim 0 = Inr ts"
    using hybrid_known [OF assms, of 0] by blast
  then show ?thesis
    by (auto simp: top_songs_def split: sum.splits)
qed

text \<open>
  C3 (amended). For a known user, with a similarity matrix that covers the songs, the
  candidates that remain after dropping the listened songs are sorted descending by
  combined score and the first \<open>k\<close> are kept; the records returned are the catalog rows
  whose song id is among them, in the order of the catalog.
\<close>

theorem ranked_then_catalog_order:
  assumes "user_id \<in> set (index pt)" "covers sim pt"
  shows "\<exists>cs rs.
           combined_scores user_id pt sim = Inr cs \<and>
           mset rs = mset (filter (\<lambda>p. \<not> (fst p \<in> set (columns pt) \<and> vals pt user_id (fst p) > 0)) cs) \<and>
           sorted_wrt (\<lambda>p q. score_ge (snd p) (snd q)) rs \<and>
           top_songs user_id pt sim k = Inr (head k rs) \<and>
           hybrid_recommend_songs user_id pt sim cat k =
             Inr \<lparr>printed = [], rows = filter (\<lambda>s. song_id s \<in> fst ` set (head k rs)) cat\<rparr>"
proof -
  let ?uv = "map (\<lambda>c. (c, vals pt user_id c)) (columns pt)"
  have uv: "loc pt user_id = Inr ?uv" using assms(1) by (rule loc_known)
  obtain cs where cs: "combined_scores user_id pt sim = Inr cs"
    using combined_scores_known [OF assms] by blast
  obtain ts where ts: "top_songs user_id pt sim k = Inr ts"
    and h: "hybrid_recommend_songs user_id pt sim cat k =
             Inr \<lparr>printed = [], rows = filter (\<lambda>s. song_id s \<in> set (map fst ts)) cat\<rparr>"
    using hybrid_known [OF assms] by blast
  let ?rs = "sort_values_desc_na (filter (\<lambda>p. fst p \<notin> set (listened_songs ?uv)) cs)"
  have t: "ts = head k ?rs"
    using ts uv cs by (auto simp: top_songs_def drop_labels_def split: if_splits)
  have l: "(fst p \<notin> set (listened_songs ?uv)) = (\<not> (fst p \<in> set (columns pt) \<and> vals pt user_id (fst p) > 0))" for p :: "int \<times> real option"
    by (auto simp: listened_songs_def image_iff)
  have m: "mset ?rs = mset (filter (\<lambda>p. \<not> (fst p \<in> set (columns pt) \<and> vals pt user_id (fst p) > 0)) cs)"
    by (simp only: mset_sort_values_desc_na l)
  have s: "sorted_wrt (\<lambda>p q. score_ge (snd p) (snd q)) ?rs"
    by (rule sorted_sort_values_desc_na)
  show ?thesis using cs m s ts h unfolding t by (intro exI [of _ cs] exI [of _ ?rs]) simp
qed

theorem ranked_then_catalog_order_witness:
  "2 \<in> set (index pt1) \<and> covers (song_similarity_df pt1) pt1 \<and>
   (\<exists>cs rs.
      combined_scores 2 pt1 (song_similarity_df pt1) = Inr cs \<and>
      mset rs = mset (filter (\<lambda>p. \<not> (fst p \<in> set (columns pt1) \<and> vals pt1 2 (fst p) > 0)) cs) \<and>
      sorted_wrt (\<lambda>p q. score_ge (snd p) (snd q)) rs \<and>
      top_songs 2 pt1 (song_similarity_df pt1) 2 = Inr (head 2 rs) \<and>
      hybrid_recommend_songs 2 pt1 (song_similarity_df pt1) catalog0 2 =
        Inr \<lparr>printed = [], rows = filter (\<lambda>s. song_id s \<in> fst ` set (head 2 rs)) catalog0\<rparr>)"
proof -
  have a: "2 \<in> set (index pt1)" "covers (song_similarity_df pt1) pt1"
    by (simp_all add: pt1_simps covers_def song_similarity_df_def)
  show ?thesis
    using a ranked_then_catalog_order [OF a, of 2 catalog0] by simp
qed

text \<open>
  C3 as stated fails: for user 2 song 30 (score 5) ranks before song 10 (score 1), and the
  records come back as song 10, then song 30.
\<close>

theorem rank_order_counterexample:
  "top_songs 2 pt1 (song_similarity_df pt1) 2 = Inr [(30, Some 5), (10, Some 1)] \<and>
   hybrid_recommend_songs 2 pt1 (song_similarity_df pt1) catalog0 2 =
     Inr \<lparr>printed = [], rows = [song_A, song_C]\<rparr> \<and>
   song_id song_A = 10 \<and> song_id song_C = 30"
  by (simp add: top_songs_pt1_user2 hybrid_pt1_user2 song_A_def song_C_def)

lemma hybrid_pt0_user3_short:
  "hybrid_recommend_songs 3 pt0 sim0 [song_A, song_B] 2 = Inr \<lparr>printed = [], rows = [song_A]\<rparr>"
  by (simp add: hybrid_recommend_songs_def hybrid_try_def top_songs_pt0_user3
      song_A_def song_B_def)

lemma hybrid_failed:
  assumes "top_songs u pt sim k = Inl e"
  shows "\<exists>out. hybrid_recommend_songs u pt sim cat k = Inr out \<and> rows out = []"
proof -
  have "hybrid_try u pt sim cat k = Inl e" using assms by (simp add: hybrid_try_def)
  moreover from this have "e = KeyError" by (rule hybrid_try_error)
  ultimately show ?thesis by (simp add: hybrid_recommend_songs_def)
qed

text \<open>
  C10. The call always returns. When the ranking fails no record is returned; otherwise,
  without any message, exactly the catalog rows whose song id is among the top ids are
  returned, so a top id without a catalog row is left out. User 3 of the scenario with
  \<open>k = 2\<close> has the two candidates 10 and 30; with a catalog that lacks song 30 a single
  record comes back.
\<close>

theorem catalog_rows_of_top_ids:
  "(\<exists>out. hybrid_recommend_songs u pt sim cat k = Inr out \<and>
      (case top_songs u pt sim k of
         Inl e \<Rightarrow> rows out = []
       | Inr ts \<Rightarrow>
           printed out = [] \<and>
           set (rows out) = {s \<in> set cat. song_id s \<in> fst ` set ts} \<and>
           (\<forall>i \<in> fst ` set ts. i \<notin> song_id ` set cat \<longrightarrow> i \<notin> song_id ` set (rows out)))) \<and>
   top_songs 3 pt0 sim0 2 = Inr [(10, Some 9), (30, Some 3)] \<and>
   hybrid_recommend_songs 3 pt0 sim0 [song_A, song_B] 2 = Inr \<lparr>printed = [], rows = [song_A]\<rparr>"
proof (intro conjI)
  show "\<exists>out. hybrid_recommend_songs u pt sim cat k = Inr out \<and>
      (case top_songs u pt sim k of
         Inl e \<Rightarrow> rows out = []
       | Inr ts \<Rightarrow>
           printed out = [] \<and>
           set (rows out) = {s \<in> set cat. song_id s \<in> fst ` set ts} \<and>
           (\<forall>i \<in> fst ` set ts. i \<notin> song_id ` set cat \<longrightarrow> i \<notin> song_id ` set (rows out)))"
  proof (cases "top_songs u pt sim k")
    case (Inl e)
    then show ?thesis using hybrid_failed [OF Inl, of cat] by simp
  next
    case (Inr ts)
    then have "hybrid_recommend_songs u pt sim cat k =
                 Inr \<lparr>printed = [], rows = filter (\<lambda>s. song_id s \<in> set (map fst ts)) cat\<rparr>"
      by (simp add: hybrid_recommend_songs_def hybrid_try_def)
    then show ?thesis using Inr by auto
  qed
next
  show "top_songs 3 pt0 sim0 2 = Inr [(10, Some 9), (30, Some 3)]"
    by (rule top_songs_pt0_user3)
next
  show "hybrid_recommend_songs 3 pt0 sim0 [song_A, song_B] 2 = Inr \<lparr>printed = [], rows = [song_A]\<rparr>"
    by (rule hybrid_pt0_user3_short)
qed

theorem catalog_rows_of_top_ids_witness:
  "30 \<notin> song_id ` set [song_A, song_B] \<and>
   (\<exists>out. hybrid_recommend_songs 3 pt0 sim0 [song_A, song_B] 2 = Inr out \<and>
      printed out = [] \<and>
      set (rows out) =
        {s \<in> set [song_A, song_B]. song_id s \<in> fst ` set [(10, Some 9), (30 :: int, Some (3 :: real))]} \<and>
      30 \<notin> song_id ` set (rows out))"
proof -
  have n: "30 \<notin> song_id ` set [song_A, song_B]"
    by (simp add: song_A_def song_B_def)
  have m: "(30 :: int) \<in> fst ` set [(10, Some 9), (30 :: int, Some (3 :: real))]"
    by simp
  have "\<exists>out. hybrid_recommend_songs 3 pt0 sim0 [song_A, song_B] 2 = Inr out \<and>
      (case top_songs 3 pt0 sim0 2 of
         Inl e \<Rightarrow> rows out = []
       | Inr ts \<Rightarrow>
           printed out = [] \<and>
           set (rows out) = {s \<in> set [song_A, song_B]. song_id s \<in> fst ` set ts} \<and>
           (\<forall>i \<in> fst ` set ts. i \<notin> song_id ` set [song_A, song_B] \<longrightarrow>
                i \<notin> song_id ` set (rows out)))"
    using catalog_rows_of_top_ids [of 3 pt0 sim0 "[song_A, song_B]" 2] by (rule conjunct1)
  then obtain out where o: "hybrid_recommend_songs 3 pt0 sim0 [song_A, song_B] 2 = Inr out"
    "printed out = []"
    "set (rows out) =
       {s \<in> set [song_A, song_B]. song_id s \<in> fst ` set [(10, Some 9), (30 :: int, Some (3 :: real))]}"
    "\<forall>i \<in> fst ` set [(10, Some 9), (30 :: int, Some (3 :: real))].
        i \<notin> song_id ` set [song_A, song_B] \<longrightarrow> i \<notin> song_id ` set (rows out)"
    unfolding top_songs_pt0_user3 sum.case by blast
  from o(4) m n have "30 \<notin> song_id ` set (rows out)" by blast
  then show ?thesis using n o by blast
qed

lemma map_of_functional:
  "\<forall>p \<in> set xs. snd p = g (fst p) \<Longrightarrow> k \<in> fst ` set xs \<Longrightarrow> map_of xs k = Some (g k)"
  by (induction xs) auto

lemma sum_list_mset_cong:
  fixes f :: "'a \<Rightarrow> real"
  assumes "mset xs = mset ys"
  shows "sum_list (map f xs) = sum_list (map f ys)"
proof -
  have "sum_list (map f xs) = sum_mset (image_mset f (mset xs))"
    by (metis mset_map sum_mset_sum_list)
  also have "\<dots> = sum_mset (image_mset f (mset ys))" by (simp only: assms)
  also have "\<dots> = sum_list (map f ys)" by (metis mset_map sum_mset_sum_list)
  finally show ?thesis .
qed

lemma similar_users_mset:
  "mset (map fst (sort_values_desc (filter (\<lambda>p. fst p \<notin> set [u]) (user_similarity pt uv))))
     = mset (filter (\<lambda>v. v \<noteq> u) (index pt))"
proof -
  have "map fst (filter (\<lambda>p. fst p \<notin> set [u]) (user_similarity pt uv))
          = filter (\<lambda>v. v \<noteq> u) (map fst (user_similarity pt uv))"
    by (simp add: filter_map comp_def)
  then have "map fst (filter (\<lambda>p. fst p \<notin> set [u]) (user_similarity pt uv))
          = filter (\<lambda>v. v \<noteq> u) (index pt)"
    by (simp only: labels_user_similarity)
  then have "mset (map fst (filter (\<lambda>p. fst p \<notin> set [u]) (user_similarity pt uv)))
          = mset (filter (\<lambda>v. v \<noteq> u) (index pt))"
    by (simp only:)
  then show ?thesis
    by (simp add: sort_values_desc_def)
qed

text \<open>
  C8. For a known user of a matrix with unique row labels and every song of the matrix,
  the user-based score is the sum of the song's listen counts over all other users. It
  does not depend on the vector the neighbours are ranked by.
\<close>

theorem user_based_score_full_sum:
  assumes "user_id \<in> set (index pt)" "distinct (index pt)" "s \<in> set (columns pt)"
  shows "\<exists>ub. user_based_scores user_id pt uv = Inr ub \<and>
           map_of ub s = Some (\<Sum>u \<in> set (index pt) - {user_id}. vals pt u s)"
proof -
  let ?ls = "map fst (sort_values_desc (filter (\<lambda>p. fst p \<notin> set [user_id]) (user_similarity pt uv)))"
  let ?ub = "sort_values_desc (col_sums (pt\<lparr>index := ?ls\<rparr>))"
  let ?g = "\<lambda>c. \<Sum>u \<leftarrow> ?ls. vals pt u c"
  have ub: "user_based_scores user_id pt uv = Inr ?ub"
    using assms(1) by (rule user_based_scores_known)
  have "\<forall>p \<in> set ?ub. snd p = ?g (fst p)"
    by (auto simp: set_sort_values_desc col_sums_def)
  moreover have "s \<in> fst ` set ?ub"
    using assms(3) label_set_col_sums [of "pt\<lparr>index := ?ls\<rparr>"]
    by (simp add: set_sort_values_desc)
  ultimately have m: "map_of ?ub s = Some (?g s)" by (rule map_of_functional)
  have "?g s = (\<Sum>u \<leftarrow> filter (\<lambda>v. v \<noteq> user_id) (index pt). vals pt u s)"
    using similar_users_mset [of user_id pt uv] by (rule sum_list_mset_cong)
  also have "\<dots> = (\<Sum>u \<in> set (filter (\<lambda>v. v \<noteq> user_id) (index pt)). vals pt u s)"
    using assms(2) by (simp add: sum_list_distinct_conv_sum_set)
  also have "set (filter (\<lambda>v. v \<noteq> user_id) (index pt)) = set (index pt) - {user_id}"
    by auto
  finally have "?g s = (\<Sum>u \<in> set (index pt) - {user_id}. vals pt u s)" .
  then show ?thesis using ub m by simp
qed

theorem user_based_score_full_sum_witness:
  "1 \<in> set (index pt0) \<and> distinct (index pt0) \<and> 30 \<in> set (columns pt0) \<and>
   (\<exists>ub. user_based_scores 1 pt0 [(10, 5), (20, 0), (30, 1)] = Inr ub \<and>
      map_of ub 30 = Some (\<Sum>u \<in> set (index pt0) - {1}. vals pt0 u 30)) \<and>
   (\<Sum>u \<in> set (index pt0) - {1}. vals pt0 u 30) = 2"
proof -
  have h: "1 \<in> set (index pt0)" "distinct (index pt0)" "30 \<in> set (columns pt0)"
    by (simp_all add: pt0_def)
  have "set (index pt0) - {1} = {2, 3}" by (auto simp: pt0_def)
  then have v: "(\<Sum>u \<in> set (index pt0) - {1}. vals pt0 u 30) = 2"
    by (simp add: pt0_def)
  show ?thesis
    using h v user_based_score_full_sum [OF h, of "[(10, 5), (20, 0), (30, 1)]"] by blast
qed

lemma dot_commute: "dot a b = dot b a"
proof (induction a arbitrary: b)
  case Nil
  then show ?case by (simp add: dot_def)
next
  case (Cons x xs)
  then show ?case by (cases b) (simp_all add: dot_def mult.commute)
qed

lemma dot_self_nonneg: "0 \<le> dot a a"
  by (induction a) (simp_all add: dot_def)

lemma dot_self_zero_iff: "dot a a = 0 \<longleftrightarrow> list_all (\<lambda>x. x = 0) a"
proof (induction a)
  case Nil
  then show ?case by (simp add: dot_def)
next
  case (Cons x xs)
  have "dot (x # xs) (x # xs) = x * x + dot xs xs" by (simp add: dot_def)
  moreover have "0 \<le> x * x" by simp
  moreover have "0 \<le> dot xs xs" by (rule dot_self_nonneg)
  ultimately have "dot (x # xs) (x # xs) = 0 \<longleftrightarrow> x = 0 \<and> dot xs xs = 0"
    by (auto simp: add_nonneg_eq_0_iff)
  then show ?case using Cons.IH by simp
qed

lemma cosine_commute: "cosine a b = cosine b a"
  by (auto simp: cosine_def dot_commute [of a b] mult.commute)

lemma cosine_self: "\<not> list_all (\<lambda>x. x = 0) a \<Longrightarrow> cosine a a = 1"
proof -
  assume n: "\<not> list_all (\<lambda>x. x = 0) a"
  then have "dot a a \<noteq> 0" by (simp add: dot_self_zero_iff)
  then have p: "0 < dot a a" using dot_self_nonneg [of a] by simp
  have "norm2 a * norm2 a = dot a a" using p by (simp add: norm2_def)
  then show ?thesis using n p by (simp add: cosine_def)
qed

lemma cosine_zero_left: "list_all (\<lambda>x. x = 0) a \<Longrightarrow> cosine a b = 0"
  by (simp add: cosine_def)

lemma cosine_zero_right: "list_all (\<lambda>x. x = 0) b \<Longrightarrow> cosine a b = 0"
  by (simp add: cosine_def)

lemma col_all_zero: "list_all (\<lambda>x. x = 0) (col pt i) \<longleftrightarrow> (\<forall>u \<in> set (index pt). vals pt u i = 0)"
  by (simp add: col_def list_all_iff)

text \<open>
  C6. The song similarity matrix is symmetric: the entry of songs \<open>i\<close>, \<open>j\<close> equals the
  entry of \<open>j\<close>, \<open>i\<close>, for every interaction matrix.
\<close>

theorem similarity_symmetric:
  "vals (song_similarity_df pt) i j = vals (song_similarity_df pt) j i"
  by (simp add: song_similarity_df_def cosine_commute [of "col pt i" "col pt j"])

theorem similarity_symmetric_witness:
  "vals (song_similarity_df pt0) 10 30 = vals (song_similarity_df pt0) 30 10"
  using similarity_symmetric [of pt0 10 30] by simp

text \<open>
  C7. A song with a nonzero listen count has similarity 1 with itself. A song whose column
  is all zero has similarity 0 with itself and with every song, on either side.
\<close>

theorem similarity_diagonal:
  "((\<exists>u \<in> set (index pt). vals pt u i \<noteq> 0) \<longrightarrow> vals (song_similarity_df pt) i i = 1) \<and>
   ((\<forall>u \<in> set (index pt). vals pt u i = 0) \<longrightarrow>
      vals (song_similarity_df pt) i i = 0 \<and>
      vals (song_similarity_df pt) i j = 0 \<and> vals (song_similarity_df pt) j i = 0)"
proof (intro conjI impI)
  assume "\<exists>u \<in> set (index pt). vals pt u i \<noteq> 0"
  then have "\<not> list_all (\<lambda>x. x = 0) (col pt i)" by (simp add: col_all_zero)
  then show "vals (song_similarity_df pt) i i = 1"
    by (simp add: song_similarity_df_def cosine_self)
next
  assume "\<forall>u \<in> set (index pt). vals pt u i = 0"
  then have z: "list_all (\<lambda>x. x = 0) (col pt i)" by (simp add: col_all_zero)
  show "vals (song_similarity_df pt) i i = 0"
    using z by (simp add: song_similarity_df_def cosine_zero_left)
  show "vals (song_similarity_df pt) i j = 0"
    using z by (simp add: song_similarity_df_def cosine_zero_left)
  show "vals (song_similarity_df pt) j i = 0"
    using z by (simp add: song_similarity_df_def cosine_zero_right)
qed

theorem similarity_diagonal_witness:
  "index pt_zero = [1, 2] \<and> vals pt_zero 1 10 \<noteq> 0 \<and>
   vals (song_similarity_df pt_zero) 10 10 = 1 \<and>
   vals pt_zero 1 20 = 0 \<and> vals pt_zero 2 20 = 0 \<and>
   vals (song_similarity_df pt_zero) 20 20 = 0 \<and>
   vals (song_similarity_df pt_zero) 20 10 = 0 \<and> vals (song_similarity_df pt_zero) 10 20 = 0"
proof -
  have a: "\<exists>u \<in> set (index pt_zero). vals pt_zero u 10 \<noteq> 0" by (simp add: pt_zero_def)
  have b: "\<forall>u \<in> set (index pt_zero). vals pt_zero u 20 = 0" by (simp add: pt_zero_def)
  have c: "index pt_zero = [1, 2]" "vals pt_zero 1 10 \<noteq> 0"
    "vals pt_zero 1 20 = 0" "vals pt_zero 2 20 = 0"
    by (simp_all add: pt_zero_def)
  show ?thesis
    using a b c similarity_diagonal [of pt_zero 10 10] similarity_diagonal [of pt_zero 20 10]
    by blast
qed

end
